theory Spec2Isabelle
  imports Main "HOL-Library.Multiset"
begin

section \<open>The account and events backend of index.js\<close>

text \<open>
  The program is an Express application with two Mongoose collections, \<open>User\<close> and
  \<open>Event\<close>, and eight route handlers. Each handler reads the request, performs awaited
  store operations one after the other and answers with a status code and a JSON body.
  A handler is modelled as a function from the store before the request to the response
  and the store after it.

  What the model fixes about the libraries:
  \<^item> an \<open>ObjectId\<close> is a natural number; the generator of fresh ids (a counter inside
    the driver) is the field \<open>next_oid\<close> of the store, advanced by every \<open>new User\<close> and
    \<open>new Event\<close>;
  \<^item> a \<open>Date\<close> is its number of milliseconds since the epoch, and a request carries a
    date as that number; \<open>new Date\<close> of a number further than 8.64e15 milliseconds from the
    epoch is an Invalid Date, which no \<open>Date\<close> path and no query filter accepts;
  \<^item> a collection is the list of its documents in insertion order, \<open>findOne\<close> and the
    \<open>findById\<close> family act on the first document that matches;
  \<^item> \<open>required: true\<close> on a \<open>String\<close> path rejects the empty string when a document is
    saved; updates do not run validators;
  \<^item> \<open>bcrypt.hash\<close> and \<open>bcrypt.compare\<close> are a parameter of every handler that calls
    them, and the random salt of \<open>bcrypt.genSalt\<close> is an argument;
  \<^item> request fields have the type the schema gives them (strings, ids, and numbers for
    dates), so a request with a missing or ill-typed field is outside the model;
  \<^item> a store call throws only for a failed validation or a unique index; a lost
    connection is outside the model.
\<close>

subsection \<open>Documents and the store\<close>

type_synonym oid = nat
type_synonym date = int

text \<open>\<open>UserSchema\<close>; \<open>user_id\<close> is the document's \<open>_id\<close>.\<close>

record user =
  user_id :: oid
  name :: string
  email :: string
  password :: string
  birthDate :: date

text \<open>\<open>EventSchema\<close>; \<open>event_id\<close> is the document's \<open>_id\<close>.\<close>

record event =
  event_id :: oid
  userId :: oid
  eventName :: string
  venue :: string
  dateTime :: date

text \<open>The numbers \<open>new Date\<close> turns into a date: the range of ECMAScript time values.\<close>

definition valid_date :: "int \<Rightarrow> bool" where
  "valid_date ms \<longleftrightarrow> - 8640000000000000 \<le> ms \<and> ms \<le> 8640000000000000"

record db =
  users :: "user list"
  events :: "event list"
  next_oid :: oid

definition init_db :: db where
  "init_db = \<lparr>users = [], events = [], next_oid = 0\<rparr>"

subsection \<open>The bcrypt library\<close>

text \<open>
  \<open>bcrypt_hash B data salt\<close> is \<open>bcrypt.hash(data, salt)\<close> and
  \<open>bcrypt_compare B data encrypted\<close> is \<open>bcrypt.compare(data, encrypted)\<close>.
\<close>

record bcrypt =
  bcrypt_hash :: "string \<Rightarrow> string \<Rightarrow> string"
  bcrypt_compare :: "string \<Rightarrow> string \<Rightarrow> bool"

text \<open>
  A stand-in for the library at concrete inputs: with a salt of two characters the digest
  is the salt followed by the data, and comparing drops the salt again. It is used for
  closed examples only.
\<close>

definition plain_bcrypt :: bcrypt where
  "plain_bcrypt =
     \<lparr>bcrypt_hash = (\<lambda>data salt. salt @ data),
      bcrypt_compare = (\<lambda>data encrypted. drop 2 encrypted = data)\<rparr>"

text \<open>
  bcrypt reads only the first 72 bytes of the data it hashes or compares. A second
  stand-in with that limit, otherwise as the first, and two passwords of 73 bytes that
  differ in the last one.
\<close>

definition truncating_bcrypt :: bcrypt where
  "truncating_bcrypt =
     \<lparr>bcrypt_hash = (\<lambda>data salt. salt @ take 72 data),
      bcrypt_compare = (\<lambda>data encrypted. drop 2 encrypted = take 72 data)\<rparr>"

definition long_password_x :: string where
  "long_password_x = replicate 72 (CHR ''a'') @ ''x''"

definition long_password_y :: string where
  "long_password_y = replicate 72 (CHR ''a'') @ ''y''"

subsection \<open>Responses\<close>

text \<open>
  What a handler's \<open>catch\<close> receives: a validation error of \<open>save\<close> with the paths that
  failed, the duplicate-key error of a unique index, or the cast error of a query filter
  with the path that could not be cast.
\<close>

datatype thrown = ValidationError "string set" | DuplicateKey string | CastError string

text \<open>
  The JSON bodies the handlers send. \<open>ServerError m e\<close> is
  \<open>{ message: m, error: error.message }\<close> for the thrown error \<open>e\<close>.
\<close>

datatype body =
    Message string
  | ServerError string thrown
  | LoginBody oid string string
  | UserIdBody oid
  | EventBody event
  | EventsBody "event list"

type_synonym response = "nat \<times> body"

text \<open>The message literals of the source, non-ASCII letters as their UTF-8 bytes.\<close>

definition msg_email_in_use :: string where
  "msg_email_in_use = ''Email j'' @ [CHR 0xC3, CHR 0xA1] @ '' est'' @ [CHR 0xC3, CHR 0xA1] @ '' em uso.''"

definition msg_user_created :: string where
  "msg_user_created = ''Utilizador criado com sucesso!''"

definition msg_server_error :: string where
  "msg_server_error = ''Erro no servidor''"

definition msg_invalid_credentials :: string where
  "msg_invalid_credentials = ''Email ou senha inv'' @ [CHR 0xC3, CHR 0xA1] @ ''lidos.''"

definition msg_data_not_found :: string where
  "msg_data_not_found = ''Dados n'' @ [CHR 0xC3, CHR 0xA3] @ ''o encontrados.''"

definition msg_user_not_found :: string where
  "msg_user_not_found = ''Utilizador n'' @ [CHR 0xC3, CHR 0xA3] @ ''o encontrado.''"

definition msg_password_reset :: string where
  "msg_password_reset = ''Senha redefinida com sucesso!''"

definition msg_wrong_password :: string where
  "msg_wrong_password = ''Senha incorreta.''"

definition msg_account_deleted :: string where
  "msg_account_deleted = ''Conta apagada com sucesso.''"

definition msg_event_create_error :: string where
  "msg_event_create_error = ''Erro ao criar evento''"

definition msg_event_not_found :: string where
  "msg_event_not_found = ''Evento n'' @ [CHR 0xC3, CHR 0xA3] @ ''o encontrado.''"

definition msg_event_deleted :: string where
  "msg_event_deleted = ''Evento apagado com sucesso.''"

subsection \<open>Mongoose operations\<close>

fun update_first :: "('a \<Rightarrow> bool) \<Rightarrow> ('a \<Rightarrow> 'a) \<Rightarrow> 'a list \<Rightarrow> 'a list" where
  "update_first P f [] = []"
| "update_first P f (x # xs) = (if P x then f x # xs else x # update_first P f xs)"

fun remove_first :: "('a \<Rightarrow> bool) \<Rightarrow> 'a list \<Rightarrow> 'a list" where
  "remove_first P [] = []"
| "remove_first P (x # xs) = (if P x then xs else x # remove_first P xs)"

text \<open>\<open>User.findOne({ email })\<close>\<close>

definition User_findOne_email :: "db \<Rightarrow> string \<Rightarrow> user option" where
  "User_findOne_email s em = find (\<lambda>u. email u = em) (users s)"

text \<open>
  \<open>User.findOne({ email, birthDate: new Date(birthDate) })\<close>: casting the filter throws for
  an Invalid Date.
\<close>

definition User_findOne_email_birthDate :: "db \<Rightarrow> string \<Rightarrow> int \<Rightarrow> thrown + user option" where
  "User_findOne_email_birthDate s em bd =
     (if \<not> valid_date bd then Inl (CastError ''birthDate'')
      else Inr (find (\<lambda>u. email u = em \<and> birthDate u = bd) (users s)))"

text \<open>\<open>User.findById(id)\<close>\<close>

definition User_findById :: "db \<Rightarrow> oid \<Rightarrow> user option" where
  "User_findById s i = find (\<lambda>u. user_id u = i) (users s)"

text \<open>
  \<open>new User({ name, email, password, birthDate })\<close>: the document gets the next id.
\<close>

definition new_User :: "db \<Rightarrow> string \<Rightarrow> string \<Rightarrow> string \<Rightarrow> date \<Rightarrow> user \<times> db" where
  "new_User s nm em pw bd =
     (\<lparr>user_id = next_oid s, name = nm, email = em, password = pw, birthDate = bd\<rparr>,
      s\<lparr>next_oid := Suc (next_oid s)\<rparr>)"

text \<open>
  The paths of \<open>UserSchema\<close> that fail validation: a \<open>required\<close> string that is empty, and
  the \<open>required\<close> date when the value given for it is not a date.
\<close>

definition User_validate :: "user \<Rightarrow> string set" where
  "User_validate u =
     (if name u = [] then {''name''} else {}) \<union>
     (if email u = [] then {''email''} else {}) \<union>
     (if password u = [] then {''password''} else {}) \<union>
     (if \<not> valid_date (birthDate u) then {''birthDate''} else {})"

text \<open>
  \<open>newUser.save()\<close>: validation first, then the insert, which the unique index on
  \<open>email\<close> refuses for an address already stored.
\<close>

definition User_save :: "db \<Rightarrow> user \<Rightarrow> thrown + db" where
  "User_save s u =
     (if User_validate u \<noteq> {} then Inl (ValidationError (User_validate u))
      else if find (\<lambda>v. email v = email u) (users s) \<noteq> None then Inl (DuplicateKey ''email'')
      else Inr (s\<lparr>users := users s @ [u]\<rparr>))"

text \<open>
  \<open>User.findByIdAndUpdate(id, { password })\<close>: the document found (as it was before the
  update) and the store after it, or \<open>None\<close> for \<open>null\<close>.
\<close>

definition User_findByIdAndUpdate :: "db \<Rightarrow> oid \<Rightarrow> string \<Rightarrow> (user \<times> db) option" where
  "User_findByIdAndUpdate s i pw =
     (case find (\<lambda>u. user_id u = i) (users s) of
        None \<Rightarrow> None
      | Some u \<Rightarrow>
          Some (u, s\<lparr>users := update_first (\<lambda>u. user_id u = i) (\<lambda>u. u\<lparr>password := pw\<rparr>) (users s)\<rparr>))"

text \<open>\<open>User.findByIdAndDelete(id)\<close>; the handler ignores what it returns.\<close>

definition User_findByIdAndDelete :: "db \<Rightarrow> oid \<Rightarrow> db" where
  "User_findByIdAndDelete s i = s\<lparr>users := remove_first (\<lambda>u. user_id u = i) (users s)\<rparr>"

text \<open>\<open>Event.deleteMany({ userId })\<close>\<close>

definition Event_deleteMany :: "db \<Rightarrow> oid \<Rightarrow> db" where
  "Event_deleteMany s i = s\<lparr>events := filter (\<lambda>e. userId e \<noteq> i) (events s)\<rparr>"

text \<open>\<open>new Event({ userId, eventName, venue, dateTime })\<close>\<close>

definition new_Event :: "db \<Rightarrow> oid \<Rightarrow> string \<Rightarrow> string \<Rightarrow> date \<Rightarrow> event \<times> db" where
  "new_Event s i en v dt =
     (\<lparr>event_id = next_oid s, userId = i, eventName = en, venue = v, dateTime = dt\<rparr>,
      s\<lparr>next_oid := Suc (next_oid s)\<rparr>)"

text \<open>The paths of \<open>EventSchema\<close> that fail validation.\<close>

definition Event_validate :: "event \<Rightarrow> string set" where
  "Event_validate e =
     (if eventName e = [] then {''eventName''} else {}) \<union>
     (if venue e = [] then {''venue''} else {}) \<union>
     (if \<not> valid_date (dateTime e) then {''dateTime''} else {})"

text \<open>\<open>newEvent.save()\<close>\<close>

definition Event_save :: "db \<Rightarrow> event \<Rightarrow> thrown + db" where
  "Event_save s e =
     (if Event_validate e \<noteq> {} then Inl (ValidationError (Event_validate e))
      else Inr (s\<lparr>events := events s @ [e]\<rparr>))"

text \<open>
  \<open>Event.find({ userId }).sort({ dateTime: 'asc' })\<close>; events with the same \<open>dateTime\<close>
  keep their insertion order.
\<close>

definition Event_find_sorted :: "db \<Rightarrow> oid \<Rightarrow> event list" where
  "Event_find_sorted s i = sort_key dateTime (filter (\<lambda>e. userId e = i) (events s))"

text \<open>\<open>Event.findByIdAndDelete(id)\<close>\<close>

definition Event_findByIdAndDelete :: "db \<Rightarrow> oid \<Rightarrow> (event \<times> db) option" where
  "Event_findByIdAndDelete s i =
     (case find (\<lambda>e. event_id e = i) (events s) of
        None \<Rightarrow> None
      | Some e \<Rightarrow> Some (e, s\<lparr>events := remove_first (\<lambda>e. event_id e = i) (events s)\<rparr>))"

subsection \<open>The route handlers\<close>

text \<open>\<open>POST /api/users/register\<close>\<close>

definition register ::
  "bcrypt \<Rightarrow> db \<Rightarrow> string \<Rightarrow> string \<Rightarrow> string \<Rightarrow> string \<Rightarrow> date \<Rightarrow> response \<times> db" where
  "register B s salt nm em pw bd =
     (case User_findOne_email s em of
        Some existingUser \<Rightarrow> ((400, Message msg_email_in_use), s)
      | None \<Rightarrow>
          (let hashedPassword = bcrypt_hash B pw salt;
               (newUser, s1) = new_User s nm em hashedPassword bd
           in case User_save s1 newUser of
                Inl err \<Rightarrow> ((500, ServerError msg_server_error err), s1)
              | Inr s2 \<Rightarrow> ((201, Message msg_user_created), s2)))"

text \<open>\<open>POST /api/users/login\<close>\<close>

definition login :: "bcrypt \<Rightarrow> db \<Rightarrow> string \<Rightarrow> string \<Rightarrow> response \<times> db" where
  "login B s em pw =
     (case User_findOne_email s em of
        None \<Rightarrow> ((401, Message msg_invalid_credentials), s)
      | Some u \<Rightarrow>
          (let isMatch = bcrypt_compare B pw (password u)
           in if \<not> isMatch then ((401, Message msg_invalid_credentials), s)
              else ((200, LoginBody (user_id u) (name u) (email u)), s)))"

text \<open>\<open>POST /api/users/verify-identity\<close>\<close>

definition verify_identity :: "db \<Rightarrow> string \<Rightarrow> int \<Rightarrow> response \<times> db" where
  "verify_identity s em bd =
     (case User_findOne_email_birthDate s em bd of
        Inl err \<Rightarrow> ((500, ServerError msg_server_error err), s)
      | Inr None \<Rightarrow> ((404, Message msg_data_not_found), s)
      | Inr (Some u) \<Rightarrow> ((200, UserIdBody (user_id u)), s))"

text \<open>\<open>POST /api/users/reset-password\<close>\<close>

definition reset_password :: "bcrypt \<Rightarrow> db \<Rightarrow> string \<Rightarrow> oid \<Rightarrow> string \<Rightarrow> response \<times> db" where
  "reset_password B s salt i newPassword =
     (let hashedPassword = bcrypt_hash B newPassword salt
      in case User_findByIdAndUpdate s i hashedPassword of
           None \<Rightarrow> ((404, Message msg_user_not_found), s)
         | Some (updatedUser, s1) \<Rightarrow> ((200, Message msg_password_reset), s1))"

text \<open>\<open>DELETE /api/users/me/:id\<close>\<close>

definition delete_own_account :: "bcrypt \<Rightarrow> db \<Rightarrow> oid \<Rightarrow> string \<Rightarrow> response \<times> db" where
  "delete_own_account B s i pw =
     (case User_findById s i of
        None \<Rightarrow> ((404, Message msg_user_not_found), s)
      | Some u \<Rightarrow>
          (let isMatch = bcrypt_compare B pw (password u)
           in if \<not> isMatch then ((401, Message msg_wrong_password), s)
              else (let s1 = Event_deleteMany s i;
                        s2 = User_findByIdAndDelete s1 i
                    in ((200, Message msg_account_deleted), s2))))"

text \<open>
  The same handler with the store it leaves after each of its awaited writes, in the order
  of the writes: what another request can find in the database while this one runs.
\<close>

definition delete_own_account_steps :: "bcrypt \<Rightarrow> db \<Rightarrow> oid \<Rightarrow> string \<Rightarrow> response \<times> db list" where
  "delete_own_account_steps B s i pw =
     (case User_findById s i of
        None \<Rightarrow> ((404, Message msg_user_not_found), [])
      | Some u \<Rightarrow>
          (let isMatch = bcrypt_compare B pw (password u)
           in if \<not> isMatch then ((401, Message msg_wrong_password), [])
              else (let s1 = Event_deleteMany s i;
                        s2 = User_findByIdAndDelete s1 i
                    in ((200, Message msg_account_deleted), [s1, s2]))))"

text \<open>\<open>POST /api/events\<close>\<close>

definition create_event :: "db \<Rightarrow> oid \<Rightarrow> string \<Rightarrow> string \<Rightarrow> date \<Rightarrow> response \<times> db" where
  "create_event s i en v dt =
     (let (newEvent, s1) = new_Event s i en v dt
      in case Event_save s1 newEvent of
           Inl err \<Rightarrow> ((500, ServerError msg_event_create_error err), s1)
         | Inr s2 \<Rightarrow> ((201, EventBody newEvent), s2))"

text \<open>\<open>GET /api/events/:userId\<close>\<close>

definition list_events :: "db \<Rightarrow> oid \<Rightarrow> response \<times> db" where
  "list_events s i = ((200, EventsBody (Event_find_sorted s i)), s)"

text \<open>\<open>DELETE /api/events/:id\<close>\<close>

definition delete_event :: "db \<Rightarrow> oid \<Rightarrow> response \<times> db" where
  "delete_event s i =
     (case Event_findByIdAndDelete s i of
        None \<Rightarrow> ((404, Message msg_event_not_found), s)
      | Some (deletedEvent, s1) \<Rightarrow> ((200, Message msg_event_deleted), s1))"

subsection \<open>Requests and reachable stores\<close>

datatype request =
    Register string string string string date
  | Login string string
  | VerifyIdentity string date
  | ResetPassword string oid string
  | DeleteOwnAccount oid string
  | CreateEvent oid string string date
  | ListEvents oid
  | DeleteEvent oid

fun handle :: "bcrypt \<Rightarrow> db \<Rightarrow> request \<Rightarrow> response \<times> db" where
  "handle B s (Register salt nm em pw bd) = register B s salt nm em pw bd"
| "handle B s (Login em pw) = login B s em pw"
| "handle B s (VerifyIdentity em bd) = verify_identity s em bd"
| "handle B s (ResetPassword salt i pw) = reset_password B s salt i pw"
| "handle B s (DeleteOwnAccount i pw) = delete_own_account B s i pw"
| "handle B s (CreateEvent i en v dt) = create_event s i en v dt"
| "handle B s (ListEvents i) = list_events s i"
| "handle B s (DeleteEvent i) = delete_event s i"

text \<open>The stores the server can be in: it starts empty and serves one request at a time.\<close>

inductive reachable :: "bcrypt \<Rightarrow> db \<Rightarrow> bool" for B :: bcrypt where
  reachable_init: "reachable B init_db"
| reachable_step: "reachable B s \<Longrightarrow> reachable B (snd (handle B s r))"

text \<open>
  What the store guarantees of its contents: ids are unique within a collection and were
  all handed out by the generator, and the unique index keeps addresses distinct.
\<close>

definition wf_db :: "db \<Rightarrow> bool" where
  "wf_db s \<longleftrightarrow>
     distinct (map user_id (users s)) \<and>
     distinct (map event_id (events s)) \<and>
     distinct (map email (users s)) \<and>
     list_all (\<lambda>u. user_id u < next_oid s) (users s) \<and>
     list_all (\<lambda>e. event_id e < next_oid s) (events s)"

text \<open>The number of \<open>User\<close> documents an event's \<open>userId\<close> refers to.\<close>

definition owner_count :: "db \<Rightarrow> event \<Rightarrow> nat" where
  "owner_count s e = length (filter (\<lambda>u. user_id u = userId e) (users s))"

definition owners_exist :: "db \<Rightarrow> bool" where
  "owners_exist s \<longleftrightarrow> list_all (\<lambda>e. owner_count s e = 1) (events s)"

text \<open>Every stored date is a date.\<close>

definition dates_valid :: "db \<Rightarrow> bool" where
  "dates_valid s \<longleftrightarrow>
     list_all (\<lambda>u. valid_date (birthDate u)) (users s) \<and>
     list_all (\<lambda>e. valid_date (dateTime e)) (events s)"

text \<open>A request that names an owner the store does not have.\<close>

fun orphaning :: "db \<Rightarrow> request \<Rightarrow> bool" where
  "orphaning s (CreateEvent i en v dt) = (find (\<lambda>u. user_id u = i) (users s) = None)"
| "orphaning s r = False"

text \<open>The stores reached when no event is created for an owner that does not exist.\<close>

inductive reachable_owned :: "bcrypt \<Rightarrow> db \<Rightarrow> bool" for B :: bcrypt where
  owned_init: "reachable_owned B init_db"
| owned_step: "reachable_owned B s \<Longrightarrow> \<not> orphaning s r \<Longrightarrow> reachable_owned B (snd (handle B s r))"

subsection \<open>A sample store\<close>

text \<open>
  Two registered users (Ana with password \<open>secret\<close> and salt \<open>s1\<close>, Rui with password
  \<open>hunter\<close> and salt \<open>s2\<close>, hashed by the stand-in above) and three events, two of them
  Ana's. The properties below are evaluated on it.
\<close>

definition example_db :: db where
  "example_db =
     \<lparr>users =
        [\<lparr>user_id = 0, name = ''Ana'', email = ''ana@x.pt'', password = ''s1secret'', birthDate = 100\<rparr>,
         \<lparr>user_id = 1, name = ''Rui'', email = ''rui@x.pt'', password = ''s2hunter'', birthDate = 200\<rparr>],
      events =
        [\<lparr>event_id = 2, userId = 0, eventName = ''Jantar'', venue = ''Lisboa'', dateTime = 50\<rparr>,
         \<lparr>event_id = 3, userId = 1, eventName = ''Treino'', venue = ''Braga'', dateTime = 30\<rparr>,
         \<lparr>event_id = 4, userId = 0, eventName = ''Feira'', venue = ''Porto'', dateTime = 20\<rparr>],
      next_oid = 5\<rparr>"

text \<open>The store after Ana alone has registered with the first of the long passwords.\<close>

definition long_password_db :: db where
  "long_password_db =
     \<lparr>users =
        [\<lparr>user_id = 0, name = ''Ana'', email = ''ana@x.pt'',
          password = ''s1'' @ replicate 72 (CHR ''a''), birthDate = 100\<rparr>],
      events = [], next_oid = 1\<rparr>"

section \<open>Properties of the store operations\<close>

lemma find_mem_distinct:
  assumes "distinct (map f xs)" and "x \<in> set xs"
  shows "find (\<lambda>y. f y = f x) xs = Some x"
  using assms by (induction xs) auto

lemma find_None_conv: "find P xs = None \<longleftrightarrow> (\<forall>x\<in>set xs. \<not> P x)"
  by (auto simp: find_None_iff)

lemma map_update_first:
  assumes "\<And>x. g (f x) = g x"
  shows "map g (update_first P f xs) = map g xs"
  by (induction xs) (auto simp: assms)

lemma list_all_update_first:
  assumes "\<And>x. Q (f x) = Q x"
  shows "list_all Q (update_first P f xs) = list_all Q xs"
  by (induction xs) (auto simp: assms)

lemma update_first_split:
  assumes "find P xs = Some x"
  shows "\<exists>ys zs. xs = ys @ x # zs \<and> (\<forall>y\<in>set ys. \<not> P y) \<and> P x \<and> update_first P f xs = ys @ f x # zs"
  using assms
proof (induction xs)
  case Nil
  then show ?case by simp
next
  case (Cons a xs)
  show ?case
  proof (cases "P a")
    case True
    with Cons.prems have "a = x" by simp
    with True show ?thesis by (intro exI[of _ "[]"] exI[of _ xs]) simp
  next
    case False
    with Cons.prems have "find P xs = Some x" by simp
    from Cons.IH[OF this] obtain ys zs where
      "xs = ys @ x # zs" "\<forall>y\<in>set ys. \<not> P y" "P x" "update_first P f xs = ys @ f x # zs" by blast
    with False show ?thesis by (intro exI[of _ "a # ys"] exI[of _ zs]) simp
  qed
qed

lemma set_remove_first: "set (remove_first P xs) \<subseteq> set xs"
  by (induction xs) auto

lemma distinct_map_remove_first:
  "distinct (map f xs) \<Longrightarrow> distinct (map f (remove_first P xs))"
proof (induction xs)
  case (Cons a xs)
  then show ?case using set_remove_first[of P xs] by auto
qed simp

lemma list_all_remove_first: "list_all Q xs \<Longrightarrow> list_all Q (remove_first P xs)"
  by (induction xs) auto

lemma remove_first_gone:
  "distinct (map f xs) \<Longrightarrow> y \<in> set (remove_first (\<lambda>x. f x = i) xs) \<Longrightarrow> f y \<noteq> i"
proof (induction xs)
  case (Cons a xs)
  show ?case
  proof (cases "f a = i")
    case True
    with Cons.prems have "y \<in> set xs" and "f a \<notin> f ` set xs" by simp_all
    with True show ?thesis by (metis imageI)
  next
    case False
    with Cons.prems Cons.IH show ?thesis by auto
  qed
qed simp

lemma remove_first_keeps:
  "y \<in> set xs \<Longrightarrow> \<not> P y \<Longrightarrow> y \<in> set (remove_first P xs)"
  by (induction xs) auto

lemma wf_register: "wf_db s \<Longrightarrow> wf_db (snd (register B s salt nm em pw bd))"
  by (auto simp: register_def wf_db_def User_findOne_email_def new_User_def User_save_def
      find_None_iff list_all_iff Let_def split: option.splits sum.splits if_splits)

lemma wf_reset_password: "wf_db s \<Longrightarrow> wf_db (snd (reset_password B s salt i pw))"
  by (auto simp: reset_password_def wf_db_def User_findByIdAndUpdate_def Let_def
      map_update_first list_all_update_first split: option.splits)

lemma wf_delete_own_account: "wf_db s \<Longrightarrow> wf_db (snd (delete_own_account B s i pw))"
  by (auto simp: delete_own_account_def wf_db_def User_findById_def Event_deleteMany_def
      User_findByIdAndDelete_def Let_def distinct_map_remove_first list_all_remove_first
      distinct_map_filter list_all_iff split: option.splits
      dest: set_remove_first[THEN subsetD])

lemma wf_create_event: "wf_db s \<Longrightarrow> wf_db (snd (create_event s i en v dt))"
  by (auto simp: create_event_def wf_db_def new_Event_def Event_save_def list_all_iff
      Let_def split: sum.splits if_splits)

lemma wf_delete_event: "wf_db s \<Longrightarrow> wf_db (snd (delete_event s i))"
  by (auto simp: delete_event_def wf_db_def Event_findByIdAndDelete_def
      distinct_map_remove_first list_all_remove_first split: option.splits)

lemma verify_identity_store: "snd (verify_identity s em bd) = s"
  by (simp add: verify_identity_def split: sum.splits option.splits)

lemma login_store: "snd (login B s em pw) = s"
  by (simp add: login_def Let_def split: option.splits)

lemma wf_handle: "wf_db s \<Longrightarrow> wf_db (snd (handle B s r))"
  by (cases r) (simp_all add: wf_register wf_reset_password wf_delete_own_account
      wf_create_event wf_delete_event login_store verify_identity_store list_events_def)

lemma wf_init: "wf_db init_db"
  by (simp add: wf_db_def init_db_def)

lemma reachable_wf: "reachable B s \<Longrightarrow> wf_db s"
  by (induction rule: reachable.induct) (simp_all add: wf_init wf_handle)

lemma wf_example_db: "wf_db example_db"
  by (simp add: wf_db_def example_db_def)

lemma findById_mem:
  "wf_db s \<Longrightarrow> u \<in> set (users s) \<Longrightarrow> User_findById s (user_id u) = Some u"
  by (simp add: User_findById_def wf_db_def find_mem_distinct)

lemma findOne_email_mem:
  "wf_db s \<Longrightarrow> u \<in> set (users s) \<Longrightarrow> User_findOne_email s (email u) = Some u"
  by (simp add: User_findOne_email_def wf_db_def find_mem_distinct)

lemma reset_password_step:
  assumes "i \<in> set (map user_id (users s))"
  shows "\<exists>us1 u us2.
           users s = us1 @ u # us2 \<and> user_id u = i \<and> (\<forall>v\<in>set us1. user_id v \<noteq> i) \<and>
           reset_password B s salt i newPassword =
             ((200, Message msg_password_reset),
              s\<lparr>users := us1 @ u\<lparr>password := bcrypt_hash B newPassword salt\<rparr> # us2\<rparr>)"
proof -
  from assms obtain u where u: "find (\<lambda>u. user_id u = i) (users s) = Some u"
    by (cases "find (\<lambda>u. user_id u = i) (users s)") (auto simp: find_None_conv)
  from update_first_split [OF u, of "\<lambda>u. u\<lparr>password := bcrypt_hash B newPassword salt\<rparr>"]
  obtain us1 us2 where
    "users s = us1 @ u # us2" "\<forall>v\<in>set us1. user_id v \<noteq> i" "user_id u = i"
    "update_first (\<lambda>u. user_id u = i) (\<lambda>u. u\<lparr>password := bcrypt_hash B newPassword salt\<rparr>) (users s)
       = us1 @ u\<lparr>password := bcrypt_hash B newPassword salt\<rparr> # us2"
    by blast
  with u show ?thesis
    by (intro exI [of _ us1] exI [of _ u] exI [of _ us2])
       (simp add: reset_password_def User_findByIdAndUpdate_def)
qed

lemma count_distinct_key:
  "distinct (map f xs) \<Longrightarrow> length (filter (\<lambda>x. f x = k) xs) = (if k \<in> f ` set xs then 1 else 0)"
  by (induction xs) auto

lemma owners_exist_iff:
  assumes "wf_db s"
  shows "owners_exist s \<longleftrightarrow> (\<forall>e\<in>set (events s). userId e \<in> user_id ` set (users s))"
  using assms
  by (simp add: owners_exist_def owner_count_def wf_db_def count_distinct_key list_all_iff)

lemma refs_register:
  assumes "\<forall>e\<in>set (events s). userId e \<in> user_id ` set (users s)"
  shows "\<forall>e\<in>set (events (snd (register B s salt nm em pw bd))).
           userId e \<in> user_id ` set (users (snd (register B s salt nm em pw bd)))"
  using assms
  by (auto simp: register_def new_User_def User_save_def Let_def
      split: option.splits sum.splits if_splits)

lemma refs_reset_password:
  assumes "\<forall>e\<in>set (events s). userId e \<in> user_id ` set (users s)"
  shows "\<forall>e\<in>set (events (snd (reset_password B s salt i pw))).
           userId e \<in> user_id ` set (users (snd (reset_password B s salt i pw)))"
proof -
  have "user_id ` set (update_first P (\<lambda>u. u\<lparr>password := h\<rparr>) xs) = user_id ` set xs"
    for P h and xs :: "user list"
  proof -
    have "map user_id (update_first P (\<lambda>u. u\<lparr>password := h\<rparr>) xs) = map user_id xs"
      by (rule map_update_first) simp
    then have "set (map user_id (update_first P (\<lambda>u. u\<lparr>password := h\<rparr>) xs)) = set (map user_id xs)"
      by simp
    then show ?thesis by (simp only: set_map)
  qed
  with assms show ?thesis
    by (auto simp: reset_password_def User_findByIdAndUpdate_def Let_def split: option.splits)
qed

lemma refs_delete_own_account:
  assumes "\<forall>e\<in>set (events s). userId e \<in> user_id ` set (users s)"
  shows "\<forall>e\<in>set (events (snd (delete_own_account B s i pw))).
           userId e \<in> user_id ` set (users (snd (delete_own_account B s i pw)))"
proof -
  have "userId e \<in> user_id ` set (remove_first (\<lambda>u. user_id u = i) (users s))"
    if "e \<in> set (events s)" "userId e \<noteq> i" for e
  proof -
    from assms that obtain u where "u \<in> set (users s)" "user_id u = userId e" by auto
    with that(2) have "u \<in> set (remove_first (\<lambda>u. user_id u = i) (users s))"
      by (simp add: remove_first_keeps)
    with \<open>user_id u = userId e\<close> show ?thesis by (metis imageI)
  qed
  with assms show ?thesis
    by (auto simp: delete_own_account_def Event_deleteMany_def User_findByIdAndDelete_def
        Let_def split: option.splits)
qed

lemma refs_create_event:
  assumes "\<forall>e\<in>set (events s). userId e \<in> user_id ` set (users s)"
    and "find (\<lambda>u. user_id u = i) (users s) \<noteq> None"
  shows "\<forall>e\<in>set (events (snd (create_event s i en v dt))).
           userId e \<in> user_id ` set (users (snd (create_event s i en v dt)))"
proof -
  from assms(2) obtain u where "u \<in> set (users s)" "user_id u = i"
    by (auto simp: find_None_conv)
  then have "i \<in> user_id ` set (users s)" by (metis imageI)
  with assms(1) show ?thesis
    by (auto simp: create_event_def new_Event_def Event_save_def Let_def
        split: sum.splits if_splits)
qed

lemma refs_delete_event:
  assumes "\<forall>e\<in>set (events s). userId e \<in> user_id ` set (users s)"
  shows "\<forall>e\<in>set (events (snd (delete_event s i))).
           userId e \<in> user_id ` set (users (snd (delete_event s i)))"
  using assms set_remove_first [of "\<lambda>e. event_id e = i" "events s"]
  by (auto simp: delete_event_def Event_findByIdAndDelete_def split: option.splits)

lemma refs_handle:
  assumes "\<forall>e\<in>set (events s). userId e \<in> user_id ` set (users s)" and "\<not> orphaning s r"
  shows "\<forall>e\<in>set (events (snd (handle B s r))).
           userId e \<in> user_id ` set (users (snd (handle B s r)))"
proof (cases r)
  case (Register salt nm em pw bd)
  then show ?thesis using refs_register [OF assms(1)] by simp
next
  case (Login em pw)
  then show ?thesis using assms(1) by (simp add: login_store)
next
  case (VerifyIdentity em bd)
  then show ?thesis using assms(1) by (simp add: verify_identity_store)
next
  case (ResetPassword salt i pw)
  then show ?thesis using refs_reset_password [OF assms(1)] by simp
next
  case (DeleteOwnAccount i pw)
  then show ?thesis using refs_delete_own_account [OF assms(1)] by simp
next
  case (CreateEvent i en v dt)
  then show ?thesis using refs_create_event [OF assms(1)] assms(2) by simp
next
  case (ListEvents i)
  then show ?thesis using assms(1) by (simp add: list_events_def)
next
  case (DeleteEvent i)
  then show ?thesis using refs_delete_event [OF assms(1)] by simp
qed

lemma reachable_owned_inv:
  "reachable_owned B s \<Longrightarrow>
     wf_db s \<and> (\<forall>e\<in>set (events s). userId e \<in> user_id ` set (users s))"
proof (induction rule: reachable_owned.induct)
  case owned_init
  show ?case by (simp add: wf_init) (simp add: init_db_def)
next
  case (owned_step s r)
  then show ?case using wf_handle [of s B r] refs_handle [of s r B] by blast
qed

lemma reachable_owned_example: "reachable_owned plain_bcrypt example_db"
proof -
  let ?B = plain_bcrypt
  let ?r1 = "Register ''s1'' ''Ana'' ''ana@x.pt'' ''secret'' 100"
  let ?r2 = "Register ''s2'' ''Rui'' ''rui@x.pt'' ''hunter'' 200"
  let ?r3 = "CreateEvent 0 ''Jantar'' ''Lisboa'' 50"
  let ?r4 = "CreateEvent 1 ''Treino'' ''Braga'' 30"
  let ?r5 = "CreateEvent 0 ''Feira'' ''Porto'' 20"
  let ?u0 = "\<lparr>user_id = 0, name = ''Ana'', email = ''ana@x.pt'', password = ''s1secret'', birthDate = 100\<rparr>"
  let ?u1 = "\<lparr>user_id = 1, name = ''Rui'', email = ''rui@x.pt'', password = ''s2hunter'', birthDate = 200\<rparr>"
  let ?e2 = "\<lparr>event_id = 2, userId = 0, eventName = ''Jantar'', venue = ''Lisboa'', dateTime = 50\<rparr>"
  let ?e3 = "\<lparr>event_id = 3, userId = 1, eventName = ''Treino'', venue = ''Braga'', dateTime = 30\<rparr>"
  let ?e4 = "\<lparr>event_id = 4, userId = 0, eventName = ''Feira'', venue = ''Porto'', dateTime = 20\<rparr>"
  let ?s1 = "\<lparr>users = [?u0], events = [], next_oid = 1\<rparr>"
  let ?s2 = "\<lparr>users = [?u0, ?u1], events = [], next_oid = 2\<rparr>"
  let ?s3 = "\<lparr>users = [?u0, ?u1], events = [?e2], next_oid = 3\<rparr>"
  let ?s4 = "\<lparr>users = [?u0, ?u1], events = [?e2, ?e3], next_oid = 4\<rparr>"
  have e1: "snd (handle ?B init_db ?r1) = ?s1"
    by (simp add: init_db_def register_def User_findOne_email_def new_User_def User_save_def
        User_validate_def valid_date_def plain_bcrypt_def)
  have e2: "snd (handle ?B ?s1 ?r2) = ?s2"
    by (simp add: register_def User_findOne_email_def new_User_def User_save_def
        User_validate_def valid_date_def plain_bcrypt_def)
  have e3: "snd (handle ?B ?s2 ?r3) = ?s3"
    by (simp add: create_event_def new_Event_def Event_save_def Event_validate_def valid_date_def)
  have e4: "snd (handle ?B ?s3 ?r4) = ?s4"
    by (simp add: create_event_def new_Event_def Event_save_def Event_validate_def valid_date_def)
  have e5: "snd (handle ?B ?s4 ?r5) = example_db"
    by (simp add: create_event_def new_Event_def Event_save_def Event_validate_def valid_date_def example_db_def)
  have "reachable_owned ?B ?s1"
    using owned_step [OF owned_init, of ?r1 ?B] e1 by simp
  then have "reachable_owned ?B ?s2"
    using owned_step [of ?B ?s1 ?r2] e2 by simp
  then have "reachable_owned ?B ?s3"
    using owned_step [of ?B ?s2 ?r3] e3 by simp
  then have "reachable_owned ?B ?s4"
    using owned_step [of ?B ?s3 ?r4] e4 by simp
  then show ?thesis
    using owned_step [of ?B ?s4 ?r5] e5 by simp
qed

lemma delete_own_account_last:
  "delete_own_account B s i pw =
     (fst (delete_own_account_steps B s i pw), last (s # snd (delete_own_account_steps B s i pw)))"
  by (simp add: delete_own_account_def delete_own_account_steps_def Let_def split: option.splits)

lemma dates_valid_handle: "dates_valid s \<Longrightarrow> dates_valid (snd (handle B s r))"
proof (cases r)
  case (Register salt nm em pw bd)
  assume "dates_valid s"
  then show ?thesis using Register
    by (auto simp: dates_valid_def register_def new_User_def User_save_def User_validate_def
        Let_def split: option.splits if_splits)
next
  case (Login em pw)
  assume "dates_valid s"
  then show ?thesis using Login by (simp add: login_store)
next
  case (VerifyIdentity em bd)
  assume "dates_valid s"
  then show ?thesis using VerifyIdentity by (simp add: verify_identity_store)
next
  case (ResetPassword salt i pw)
  assume "dates_valid s"
  then show ?thesis using ResetPassword
    by (auto simp: dates_valid_def reset_password_def User_findByIdAndUpdate_def Let_def
        list_all_update_first split: option.splits)
next
  case (DeleteOwnAccount i pw)
  assume "dates_valid s"
  then show ?thesis using DeleteOwnAccount
    by (auto simp: dates_valid_def delete_own_account_def User_findById_def Event_deleteMany_def
        User_findByIdAndDelete_def Let_def list_all_remove_first list_all_iff
        split: option.splits dest: set_remove_first[THEN subsetD])
next
  case (CreateEvent i en v dt)
  assume "dates_valid s"
  then show ?thesis using CreateEvent
    by (auto simp: dates_valid_def create_event_def new_Event_def Event_save_def
        Event_validate_def Let_def split: if_splits)
next
  case (ListEvents i)
  assume "dates_valid s"
  then show ?thesis using ListEvents by (simp add: list_events_def)
next
  case (DeleteEvent i)
  assume "dates_valid s"
  then show ?thesis using DeleteEvent
    by (auto simp: dates_valid_def delete_event_def Event_findByIdAndDelete_def
        list_all_remove_first split: option.splits)
qed

lemma reachable_dates_valid: "reachable B s \<Longrightarrow> dates_valid s"
  by (induction rule: reachable.induct)
     (simp_all add: dates_valid_handle, simp add: dates_valid_def init_db_def)

lemma dates_valid_example_db: "dates_valid example_db"
  by (simp add: dates_valid_def example_db_def valid_date_def)

section \<open>The credential and identity workflow\<close>

text \<open>
  The handlers are verified for every \<open>bcrypt\<close> parameter. Where a property needs the
  library to accept or to refuse a password, that is a hypothesis on the call concerned;
  the library's own round trip and collision behaviour are not derived here.
\<close>

subsection \<open>Login\<close>

text \<open>
  Claim C2. For every store and every \<open>Login(email, password)\<close> request: when no user
  record has the address, and when the record found for it has a stored hash that
  \<open>bcrypt.compare\<close> rejects, the handler answers with the same status 401 and the same
  message, and leaves the store as it was. The two causes give one and the same response.
\<close>

theorem login_failures_identical:
  assumes "(\<forall>u\<in>set (users s). email u \<noteq> em) \<or>
           (\<exists>u. find (\<lambda>u. email u = em) (users s) = Some u \<and> \<not> bcrypt_compare B pw (password u))"
  shows "login B s em pw = ((401, Message msg_invalid_credentials), s)"
  using assms
proof
  assume "\<forall>u\<in>set (users s). email u \<noteq> em"
  then have "User_findOne_email s em = None"
    by (simp add: User_findOne_email_def find_None_conv)
  then show ?thesis by (simp add: login_def)
next
  assume "\<exists>u. find (\<lambda>u. email u = em) (users s) = Some u \<and> \<not> bcrypt_compare B pw (password u)"
  then obtain u where "User_findOne_email s em = Some u" and "\<not> bcrypt_compare B pw (password u)"
    by (auto simp: User_findOne_email_def)
  then show ?thesis by (simp add: login_def)
qed

theorem login_failures_identical_witness:
  "''zed@x.pt'' \<notin> set (map email (users example_db)) \<and>
   login plain_bcrypt example_db ''zed@x.pt'' ''secret'' =
     ((401, Message msg_invalid_credentials), example_db) \<and>
   find (\<lambda>u. email u = ''ana@x.pt'') (users example_db) =
     Some \<lparr>user_id = 0, name = ''Ana'', email = ''ana@x.pt'', password = ''s1secret'', birthDate = 100\<rparr> \<and>
   \<not> bcrypt_compare plain_bcrypt ''hunter'' ''s1secret'' \<and>
   login plain_bcrypt example_db ''ana@x.pt'' ''hunter'' =
     ((401, Message msg_invalid_credentials), example_db)"
proof -
  have h1: "\<forall>u\<in>set (users example_db). email u \<noteq> ''zed@x.pt''"
    by (simp add: example_db_def)
  have h2: "\<exists>u. find (\<lambda>u. email u = ''ana@x.pt'') (users example_db) = Some u \<and>
        \<not> bcrypt_compare plain_bcrypt ''hunter'' (password u)"
    by (simp add: example_db_def plain_bcrypt_def)
  have h3: "find (\<lambda>u. email u = ''ana@x.pt'') (users example_db) =
     Some \<lparr>user_id = 0, name = ''Ana'', email = ''ana@x.pt'', password = ''s1secret'', birthDate = 100\<rparr>"
    by (simp add: example_db_def)
  have h4: "\<not> bcrypt_compare plain_bcrypt ''hunter'' ''s1secret''"
    by (simp add: plain_bcrypt_def)
  have h5: "''zed@x.pt'' \<notin> set (map email (users example_db))"
    by (simp add: example_db_def)
  show ?thesis
    using h3 h4 h5 login_failures_identical [OF disjI1, OF h1, of plain_bcrypt "''secret''"]
      login_failures_identical [OF disjI2, OF h2]
    by simp
qed

subsection \<open>Password reset\<close>

text \<open>
  Claim C3, as amended. In a store as the database keeps it, for a user \<open>u\<close> of the store,
  \<open>ResetPassword(u.id, pNew)\<close> succeeds, and in the store it leaves \<open>Login(u.email, p)\<close>
  succeeds, with \<open>u\<close>'s id, name and address, for exactly the passwords \<open>p\<close> that
  \<open>bcrypt.compare\<close> accepts against the new hash, and fails with the invalid-credentials
  response for every other \<open>p\<close>. So the new password logs in when the library accepts it
  against its own hash, and an old password is refused unless the library accepts it
  against the new hash as well. \<open>ResetPassword\<close> answers 404 when no user has the given id,
  and changes nothing.
\<close>

theorem reset_password_changes_login:
  "(wf_db s \<and> u \<in> set (users s) \<longrightarrow>
      fst (reset_password B s salt (user_id u) pNew) = (200, Message msg_password_reset) \<and>
      login B (snd (reset_password B s salt (user_id u) pNew)) (email u) p =
        (if bcrypt_compare B p (bcrypt_hash B pNew salt)
         then ((200, LoginBody (user_id u) (name u) (email u)),
               snd (reset_password B s salt (user_id u) pNew))
         else ((401, Message msg_invalid_credentials),
               snd (reset_password B s salt (user_id u) pNew)))) \<and>
   ((\<forall>v\<in>set (users s). user_id v \<noteq> i) \<longrightarrow>
      reset_password B s salt i pNew = ((404, Message msg_user_not_found), s))"
proof (intro conjI impI)
  assume "\<forall>v\<in>set (users s). user_id v \<noteq> i"
  then have "find (\<lambda>u. user_id u = i) (users s) = None" by (simp add: find_None_conv)
  then show "reset_password B s salt i pNew = ((404, Message msg_user_not_found), s)"
    by (simp add: reset_password_def User_findByIdAndUpdate_def)
next
  assume a: "wf_db s \<and> u \<in> set (users s)"
  let ?h = "bcrypt_hash B pNew salt"
  let ?u' = "u\<lparr>password := ?h\<rparr>"
  have mem: "user_id u \<in> set (map user_id (users s))" using a by simp
  from reset_password_step [OF mem, of B salt pNew]
  obtain us1 v us2 where
    us: "users s = us1 @ v # us2" and v: "user_id v = user_id u" and
    r: "reset_password B s salt (user_id u) pNew =
          ((200, Message msg_password_reset), s\<lparr>users := us1 @ v\<lparr>password := ?h\<rparr> # us2\<rparr>)"
    by blast
  have vu: "v = u" using a us v by (auto simp: wf_db_def distinct_map dest: inj_onD)
  let ?s' = "s\<lparr>users := us1 @ ?u' # us2\<rparr>"
  have s': "snd (reset_password B s salt (user_id u) pNew) = ?s'" using r vu by simp
  have wf': "wf_db ?s'"
    using wf_reset_password [of s B salt "user_id u" pNew] a s' by simp
  have f: "User_findOne_email ?s' (email u) = Some ?u'"
    using findOne_email_mem [OF wf', of ?u'] by simp
  show "fst (reset_password B s salt (user_id u) pNew) = (200, Message msg_password_reset)"
    using r by simp
  show "login B (snd (reset_password B s salt (user_id u) pNew)) (email u) p =
        (if bcrypt_compare B p (bcrypt_hash B pNew salt)
         then ((200, LoginBody (user_id u) (name u) (email u)),
               snd (reset_password B s salt (user_id u) pNew))
         else ((401, Message msg_invalid_credentials),
               snd (reset_password B s salt (user_id u) pNew)))"
    unfolding s' using f by (simp add: login_def)
qed

theorem reset_password_changes_login_witness:
  "wf_db example_db \<and>
   \<lparr>user_id = 0, name = ''Ana'', email = ''ana@x.pt'', password = ''s1secret'', birthDate = 100\<rparr>
     \<in> set (users example_db) \<and>
   fst (reset_password plain_bcrypt example_db ''s7'' 0 ''tiger'') =
     (200, Message msg_password_reset) \<and>
   \<not> bcrypt_compare plain_bcrypt ''secret'' (bcrypt_hash plain_bcrypt ''tiger'' ''s7'') \<and>
   fst (login plain_bcrypt (snd (reset_password plain_bcrypt example_db ''s7'' 0 ''tiger''))
          ''ana@x.pt'' ''secret'') = (401, Message msg_invalid_credentials) \<and>
   bcrypt_compare plain_bcrypt ''tiger'' (bcrypt_hash plain_bcrypt ''tiger'' ''s7'') \<and>
   fst (login plain_bcrypt (snd (reset_password plain_bcrypt example_db ''s7'' 0 ''tiger''))
          ''ana@x.pt'' ''tiger'') = (200, LoginBody 0 ''Ana'' ''ana@x.pt'') \<and>
   9 \<notin> set (map user_id (users example_db)) \<and>
   reset_password plain_bcrypt example_db ''s7'' 9 ''tiger'' =
     ((404, Message msg_user_not_found), example_db)"
proof -
  let ?u = "\<lparr>user_id = 0, name = ''Ana'', email = ''ana@x.pt'', password = ''s1secret'', birthDate = 100\<rparr>"
  have h1: "wf_db example_db \<and> ?u \<in> set (users example_db)"
    by (simp add: wf_example_db) (simp add: example_db_def)
  have h3: "bcrypt_compare plain_bcrypt ''tiger'' (bcrypt_hash plain_bcrypt ''tiger'' ''s7'')"
    by (simp add: plain_bcrypt_def)
  have h4: "\<not> bcrypt_compare plain_bcrypt ''secret'' (bcrypt_hash plain_bcrypt ''tiger'' ''s7'')"
    by (simp add: plain_bcrypt_def)
  have h5: "\<forall>v\<in>set (users example_db). user_id v \<noteq> 9" by (simp add: example_db_def)
  have h6: "9 \<notin> set (map user_id (users example_db))" by (simp add: example_db_def)
  note old =
    reset_password_changes_login [of example_db ?u plain_bcrypt "''s7''" "''tiger''" "''secret''" 9,
      THEN conjunct1, THEN mp, OF h1]
  note new =
    reset_password_changes_login [of example_db ?u plain_bcrypt "''s7''" "''tiger''" "''tiger''" 9,
      THEN conjunct1, THEN mp, OF h1]
  note absent =
    reset_password_changes_login [of example_db ?u plain_bcrypt "''s7''" "''tiger''" "''tiger''" 9,
      THEN conjunct2, THEN mp, OF h5]
  have a: "fst (reset_password plain_bcrypt example_db ''s7'' 0 ''tiger'') =
     (200, Message msg_password_reset)"
    using old by simp
  have b: "fst (login plain_bcrypt (snd (reset_password plain_bcrypt example_db ''s7'' 0 ''tiger''))
          ''ana@x.pt'' ''secret'') = (401, Message msg_invalid_credentials)"
    using old h4 by simp
  have c: "fst (login plain_bcrypt (snd (reset_password plain_bcrypt example_db ''s7'' 0 ''tiger''))
          ''ana@x.pt'' ''tiger'') = (200, LoginBody 0 ''Ana'' ''ana@x.pt'')"
    using new h3 by simp
  from h1 h3 h4 h6 a b c absent show ?thesis by (simp only: simp_thms)
qed

text \<open>
  The claim as stated fails for two different passwords that the library cannot tell
  apart. With the 72-byte limit: Ana registers with a password of 72 letters \<open>a\<close> and an
  \<open>x\<close> and can log in with it; the password is reset to 72 letters \<open>a\<close> and a \<open>y\<close>; the
  old password still logs in.
\<close>

theorem reset_password_long_password_counterexample:
  "long_password_x \<noteq> long_password_y \<and>
   register truncating_bcrypt init_db ''s1'' ''Ana'' ''ana@x.pt'' long_password_x 100 =
     ((201, Message msg_user_created), long_password_db) \<and>
   fst (login truncating_bcrypt long_password_db ''ana@x.pt'' long_password_x) =
     (200, LoginBody 0 ''Ana'' ''ana@x.pt'') \<and>
   fst (reset_password truncating_bcrypt long_password_db ''s2'' 0 long_password_y) =
     (200, Message msg_password_reset) \<and>
   fst (login truncating_bcrypt
          (snd (reset_password truncating_bcrypt long_password_db ''s2'' 0 long_password_y))
          ''ana@x.pt'' long_password_y) = (200, LoginBody 0 ''Ana'' ''ana@x.pt'') \<and>
   fst (login truncating_bcrypt
          (snd (reset_password truncating_bcrypt long_password_db ''s2'' 0 long_password_y))
          ''ana@x.pt'' long_password_x) = (200, LoginBody 0 ''Ana'' ''ana@x.pt'') \<and>
   fst (login truncating_bcrypt
          (snd (reset_password truncating_bcrypt long_password_db ''s2'' 0 long_password_y))
          ''ana@x.pt'' long_password_x) \<noteq> (401, Message msg_invalid_credentials)"
proof -
  have ne: "long_password_x \<noteq> long_password_y"
    by (simp add: long_password_x_def long_password_y_def)
  have reg: "register truncating_bcrypt init_db ''s1'' ''Ana'' ''ana@x.pt'' long_password_x 100 =
     ((201, Message msg_user_created), long_password_db)"
    by (simp add: register_def init_db_def User_findOne_email_def new_User_def User_save_def
        User_validate_def valid_date_def truncating_bcrypt_def long_password_x_def
        long_password_db_def)
  have l0: "fst (login truncating_bcrypt long_password_db ''ana@x.pt'' long_password_x) =
     (200, LoginBody 0 ''Ana'' ''ana@x.pt'')"
    by (simp add: login_def User_findOne_email_def truncating_bcrypt_def long_password_x_def
        long_password_db_def)
  have rs: "reset_password truncating_bcrypt long_password_db ''s2'' 0 long_password_y =
     ((200, Message msg_password_reset),
      long_password_db\<lparr>users :=
        [\<lparr>user_id = 0, name = ''Ana'', email = ''ana@x.pt'',
          password = ''s2'' @ replicate 72 (CHR ''a''), birthDate = 100\<rparr>]\<rparr>)"
    by (simp add: reset_password_def User_findByIdAndUpdate_def truncating_bcrypt_def
        long_password_y_def long_password_db_def)
  have l1: "fst (login truncating_bcrypt
          (snd (reset_password truncating_bcrypt long_password_db ''s2'' 0 long_password_y))
          ''ana@x.pt'' long_password_y) = (200, LoginBody 0 ''Ana'' ''ana@x.pt'')"
    unfolding rs
    by (simp add: login_def User_findOne_email_def truncating_bcrypt_def long_password_y_def)
  have l2: "fst (login truncating_bcrypt
          (snd (reset_password truncating_bcrypt long_password_db ''s2'' 0 long_password_y))
          ''ana@x.pt'' long_password_x) = (200, LoginBody 0 ''Ana'' ''ana@x.pt'')"
    unfolding rs
    by (simp add: login_def User_findOne_email_def truncating_bcrypt_def long_password_x_def)
  have l3: "fst (login truncating_bcrypt
          (snd (reset_password truncating_bcrypt long_password_db ''s2'' 0 long_password_y))
          ''ana@x.pt'' long_password_x) \<noteq> (401, Message msg_invalid_credentials)"
    unfolding l2 by simp
  from ne reg l0 rs l1 l2 l3 show ?thesis by (simp only: simp_thms fst_conv)
qed

text \<open>
  Claim C10. For every store with a user of the given id, \<open>ResetPassword(userId,
  newPassword)\<close> succeeds and the store after it is the store before it with the password
  of that one user record replaced by the new hash: the record keeps its id, name, address
  and birth date, the records before and after it in the collection are the same, and the
  events and the id generator are untouched.
\<close>

theorem reset_password_frame:
  assumes "i \<in> set (map user_id (users s))"
  shows "\<exists>us1 u us2.
           users s = us1 @ u # us2 \<and> user_id u = i \<and> (\<forall>v\<in>set us1. user_id v \<noteq> i) \<and>
           reset_password B s salt i newPassword =
             ((200, Message msg_password_reset),
              s\<lparr>users := us1 @ u\<lparr>password := bcrypt_hash B newPassword salt\<rparr> # us2\<rparr>)"
  using assms by (rule reset_password_step)

theorem reset_password_frame_witness:
  "1 \<in> set (map user_id (users example_db)) \<and>
   reset_password plain_bcrypt example_db ''s7'' 1 ''tiger'' =
     ((200, Message msg_password_reset),
      example_db\<lparr>users :=
        [\<lparr>user_id = 0, name = ''Ana'', email = ''ana@x.pt'', password = ''s1secret'', birthDate = 100\<rparr>,
         \<lparr>user_id = 1, name = ''Rui'', email = ''rui@x.pt'', password = ''s7tiger'', birthDate = 200\<rparr>]\<rparr>)"
proof -
  have h: "1 \<in> set (map user_id (users example_db))" by (simp add: example_db_def)
  from reset_password_frame [OF h, of plain_bcrypt "''s7''" "''tiger''"]
  obtain us1 u us2 where
    a: "users example_db = us1 @ u # us2" and b: "user_id u = 1" and
    c: "\<forall>v\<in>set us1. user_id v \<noteq> 1" and
    d: "reset_password plain_bcrypt example_db ''s7'' 1 ''tiger'' =
             ((200, Message msg_password_reset),
              example_db\<lparr>users := us1 @ u\<lparr>password := bcrypt_hash plain_bcrypt ''tiger'' ''s7''\<rparr> # us2\<rparr>)"
    by blast
  show ?thesis using h d
    by (simp add: example_db_def reset_password_def User_findByIdAndUpdate_def plain_bcrypt_def)
qed

subsection \<open>Deleting an account\<close>

text \<open>
  Claim C4. In a store as the database keeps it, for a user \<open>u\<close> of the store and a
  password that \<open>bcrypt.compare\<close> accepts against \<open>u\<close>'s stored hash,
  \<open>DeleteOwnAccount(u.id, password)\<close> answers 200 and makes two writes. The store after
  the first write has all the users of the store before, \<open>u\<close> among them, and of its
  events exactly those that are not \<open>u\<close>'s: the events go while the user record is still
  there. The store after the second write, which is the store the handler leaves, has the
  same events; in it \<open>ListEvents(u.id)\<close> returns the empty sequence, no user has \<open>u\<close>'s
  id, and the other users are all still there.
\<close>

theorem delete_own_account_cascade:
  assumes "wf_db s" and "u \<in> set (users s)" and "bcrypt_compare B pw (password u)"
  shows "\<exists>s1 s2.
           delete_own_account_steps B s (user_id u) pw =
             ((200, Message msg_account_deleted), [s1, s2]) \<and>
           delete_own_account B s (user_id u) pw = ((200, Message msg_account_deleted), s2) \<and>
           users s1 = users s \<and> u \<in> set (users s1) \<and>
           events s1 = filter (\<lambda>e. userId e \<noteq> user_id u) (events s) \<and>
           (\<forall>e\<in>set (events s1). userId e \<noteq> user_id u) \<and>
           events s2 = events s1 \<and>
           list_events s2 (user_id u) = ((200, EventsBody []), s2) \<and>
           (\<forall>v\<in>set (users s2). user_id v \<noteq> user_id u) \<and>
           set (users s2) = set (users s) - {u}"
proof -
  let ?i = "user_id u"
  let ?s1 = "Event_deleteMany s ?i"
  let ?s2 = "User_findByIdAndDelete ?s1 ?i"
  have d: "distinct (map user_id (users s))" using assms(1) by (simp add: wf_db_def)
  have steps: "delete_own_account_steps B s ?i pw = ((200, Message msg_account_deleted), [?s1, ?s2])"
    using assms by (simp add: delete_own_account_steps_def findById_mem Let_def)
  have handler: "delete_own_account B s ?i pw = ((200, Message msg_account_deleted), ?s2)"
    by (simp add: delete_own_account_last steps)
  have us1: "users ?s1 = users s" by (simp add: Event_deleteMany_def)
  have ev1: "events ?s1 = filter (\<lambda>e. userId e \<noteq> ?i) (events s)"
    by (simp add: Event_deleteMany_def)
  have ev2: "events ?s2 = events ?s1"
    by (simp add: User_findByIdAndDelete_def)
  have none: "\<forall>e\<in>set (events ?s1). userId e \<noteq> ?i"
    by (simp add: ev1)
  have empty: "list_events ?s2 ?i = ((200, EventsBody []), ?s2)"
    unfolding list_events_def Event_find_sorted_def ev2 ev1 by (simp add: filter_empty_conv)
  have gone: "\<forall>v\<in>set (users ?s2). user_id v \<noteq> ?i"
    using d by (auto simp: Event_deleteMany_def User_findByIdAndDelete_def dest: remove_first_gone)
  have rest: "set (users ?s2) = set (users s) - {u}"
  proof
    show "set (users ?s2) \<subseteq> set (users s) - {u}"
      using gone set_remove_first [of "\<lambda>v. user_id v = ?i" "users s"]
      by (auto simp: Event_deleteMany_def User_findByIdAndDelete_def)
    show "set (users s) - {u} \<subseteq> set (users ?s2)"
    proof
      fix v assume v: "v \<in> set (users s) - {u}"
      then have "user_id v \<noteq> ?i"
        using d assms(2) by (auto simp: distinct_map dest: inj_onD)
      with v show "v \<in> set (users ?s2)"
        by (simp add: Event_deleteMany_def User_findByIdAndDelete_def remove_first_keeps)
    qed
  qed
  from steps handler us1 assms(2) ev1 none ev2 empty gone rest
  show ?thesis by (intro exI [of _ ?s1] exI [of _ ?s2]) (simp only: simp_thms)
qed

theorem delete_own_account_cascade_witness:
  "wf_db example_db \<and>
   \<lparr>user_id = 0, name = ''Ana'', email = ''ana@x.pt'', password = ''s1secret'', birthDate = 100\<rparr>
     \<in> set (users example_db) \<and>
   bcrypt_compare plain_bcrypt ''secret'' ''s1secret'' \<and>
   delete_own_account_steps plain_bcrypt example_db 0 ''secret'' =
     ((200, Message msg_account_deleted),
      [\<lparr>users =
          [\<lparr>user_id = 0, name = ''Ana'', email = ''ana@x.pt'', password = ''s1secret'', birthDate = 100\<rparr>,
           \<lparr>user_id = 1, name = ''Rui'', email = ''rui@x.pt'', password = ''s2hunter'', birthDate = 200\<rparr>],
        events =
          [\<lparr>event_id = 3, userId = 1, eventName = ''Treino'', venue = ''Braga'', dateTime = 30\<rparr>],
        next_oid = 5\<rparr>,
       \<lparr>users =
          [\<lparr>user_id = 1, name = ''Rui'', email = ''rui@x.pt'', password = ''s2hunter'', birthDate = 200\<rparr>],
        events =
          [\<lparr>event_id = 3, userId = 1, eventName = ''Treino'', venue = ''Braga'', dateTime = 30\<rparr>],
        next_oid = 5\<rparr>]) \<and>
   delete_own_account plain_bcrypt example_db 0 ''secret'' =
     ((200, Message msg_account_deleted),
      \<lparr>users =
         [\<lparr>user_id = 1, name = ''Rui'', email = ''rui@x.pt'', password = ''s2hunter'', birthDate = 200\<rparr>],
       events =
         [\<lparr>event_id = 3, userId = 1, eventName = ''Treino'', venue = ''Braga'', dateTime = 30\<rparr>],
       next_oid = 5\<rparr>)"
proof -
  let ?u = "\<lparr>user_id = 0, name = ''Ana'', email = ''ana@x.pt'', password = ''s1secret'', birthDate = 100\<rparr>"
  have h1: "wf_db example_db" by (rule wf_example_db)
  have h2: "?u \<in> set (users example_db)" by (simp add: example_db_def)
  have h3: "bcrypt_compare plain_bcrypt ''secret'' (password ?u)"
    by (simp add: plain_bcrypt_def)
  from delete_own_account_cascade [OF h1 h2 h3]
  obtain s1 s2 where
    st: "delete_own_account_steps plain_bcrypt example_db (user_id ?u) ''secret'' =
           ((200, Message msg_account_deleted), [s1, s2])" and
    hd: "delete_own_account plain_bcrypt example_db (user_id ?u) ''secret'' =
           ((200, Message msg_account_deleted), s2)"
    by blast
  have ev: "delete_own_account_steps plain_bcrypt example_db 0 ''secret'' =
     ((200, Message msg_account_deleted),
      [\<lparr>users =
          [\<lparr>user_id = 0, name = ''Ana'', email = ''ana@x.pt'', password = ''s1secret'', birthDate = 100\<rparr>,
           \<lparr>user_id = 1, name = ''Rui'', email = ''rui@x.pt'', password = ''s2hunter'', birthDate = 200\<rparr>],
        events =
          [\<lparr>event_id = 3, userId = 1, eventName = ''Treino'', venue = ''Braga'', dateTime = 30\<rparr>],
        next_oid = 5\<rparr>,
       \<lparr>users =
          [\<lparr>user_id = 1, name = ''Rui'', email = ''rui@x.pt'', password = ''s2hunter'', birthDate = 200\<rparr>],
        events =
          [\<lparr>event_id = 3, userId = 1, eventName = ''Treino'', venue = ''Braga'', dateTime = 30\<rparr>],
        next_oid = 5\<rparr>])"
    by (simp add: delete_own_account_steps_def User_findById_def Event_deleteMany_def
        User_findByIdAndDelete_def example_db_def plain_bcrypt_def)
  from st ev have "s2 = \<lparr>users =
         [\<lparr>user_id = 1, name = ''Rui'', email = ''rui@x.pt'', password = ''s2hunter'', birthDate = 200\<rparr>],
       events =
         [\<lparr>event_id = 3, userId = 1, eventName = ''Treino'', venue = ''Braga'', dateTime = 30\<rparr>],
       next_oid = 5\<rparr>"
    by simp
  with hd h1 h2 h3 ev show ?thesis by simp
qed

text \<open>
  Claim C5. In a store as the database keeps it, for a user \<open>u\<close> of the store and a
  password that \<open>bcrypt.compare\<close> rejects against \<open>u\<close>'s stored hash,
  \<open>DeleteOwnAccount(u.id, password)\<close> answers 401 with the wrong-password message and the
  store is unchanged: no user and no event is deleted.
\<close>

theorem delete_wrong_password_unchanged:
  assumes "wf_db s" and "u \<in> set (users s)" and "\<not> bcrypt_compare B pw (password u)"
  shows "delete_own_account B s (user_id u) pw = ((401, Message msg_wrong_password), s)"
  using assms by (simp add: delete_own_account_def findById_mem)

theorem delete_wrong_password_unchanged_witness:
  "wf_db example_db \<and>
   \<lparr>user_id = 1, name = ''Rui'', email = ''rui@x.pt'', password = ''s2hunter'', birthDate = 200\<rparr>
     \<in> set (users example_db) \<and>
   \<not> bcrypt_compare plain_bcrypt ''secret'' ''s2hunter'' \<and>
   delete_own_account plain_bcrypt example_db 1 ''secret'' =
     ((401, Message msg_wrong_password), example_db)"
proof -
  let ?u = "\<lparr>user_id = 1, name = ''Rui'', email = ''rui@x.pt'', password = ''s2hunter'', birthDate = 200\<rparr>"
  have h1: "wf_db example_db" by (rule wf_example_db)
  have h2: "?u \<in> set (users example_db)" by (simp add: example_db_def)
  have h3: "\<not> bcrypt_compare plain_bcrypt ''secret'' (password ?u)"
    by (simp add: plain_bcrypt_def)
  show ?thesis
    using h1 h2 h3 delete_wrong_password_unchanged [OF h1 h2 h3] by simp
qed

subsection \<open>Verifying an identity\<close>

text \<open>
  Claim C6, as amended. \<open>VerifyIdentity(email, birthDate)\<close> never changes the store, and
  a 200 answer carries the id of a user record that has both that address and that birth
  date. For a birth date that is a date, and in every store whose dates are dates for any
  birth date, it answers 200 exactly when some user record has both. For a birth date
  that is a date it answers 404 with the not-found message when no record has both; with
  addresses unique, the right address with a wrong birth date is answered 404 and the
  right pair is answered with that user's id. For a birth date that \<open>new Date\<close> does not
  accept, the query throws and the answer is 500, not 404.
\<close>

theorem verify_identity_iff:
  "(valid_date bd \<or> dates_valid s \<longrightarrow>
      ((\<exists>i. fst (verify_identity s em bd) = (200, UserIdBody i)) \<longleftrightarrow>
       (\<exists>u\<in>set (users s). email u = em \<and> birthDate u = bd))) \<and>
   (fst (verify_identity s em bd) = (200, UserIdBody i) \<longrightarrow>
      (\<exists>u\<in>set (users s). user_id u = i \<and> email u = em \<and> birthDate u = bd)) \<and>
   (valid_date bd \<and> (\<forall>u\<in>set (users s). \<not> (email u = em \<and> birthDate u = bd)) \<longrightarrow>
      verify_identity s em bd = ((404, Message msg_data_not_found), s)) \<and>
   (valid_date bd \<and> wf_db s \<and> u \<in> set (users s) \<and> em = email u \<and> bd \<noteq> birthDate u \<longrightarrow>
      verify_identity s em bd = ((404, Message msg_data_not_found), s)) \<and>
   (valid_date bd \<and> wf_db s \<and> u \<in> set (users s) \<and> em = email u \<and> bd = birthDate u \<longrightarrow>
      verify_identity s em bd = ((200, UserIdBody (user_id u)), s)) \<and>
   (\<not> valid_date bd \<longrightarrow>
      verify_identity s em bd =
        ((500, ServerError msg_server_error (CastError ''birthDate'')), s)) \<and>
   snd (verify_identity s em bd) = s"
proof (cases "valid_date bd")
  case False
  then have r: "verify_identity s em bd =
        ((500, ServerError msg_server_error (CastError ''birthDate'')), s)"
    by (simp add: verify_identity_def User_findOne_email_birthDate_def)
  have "dates_valid s \<longrightarrow> \<not> (\<exists>u\<in>set (users s). email u = em \<and> birthDate u = bd)"
    using False by (auto simp: dates_valid_def list_all_iff)
  with False r show ?thesis by auto
next
  case True
  show ?thesis
  proof (cases "find (\<lambda>u. email u = em \<and> birthDate u = bd) (users s)")
    case None
    then have no: "\<forall>u\<in>set (users s). \<not> (email u = em \<and> birthDate u = bd)"
      by (simp add: find_None_conv)
    have r: "verify_identity s em bd = ((404, Message msg_data_not_found), s)"
      using None True by (simp add: verify_identity_def User_findOne_email_birthDate_def)
    show ?thesis using no r True by auto
  next
    case (Some v)
    then have v: "v \<in> set (users s)" "email v = em" "birthDate v = bd"
      by (auto simp: find_Some_iff)
    have r: "verify_identity s em bd = ((200, UserIdBody (user_id v)), s)"
      using Some True by (simp add: verify_identity_def User_findOne_email_birthDate_def)
    have uniq: "wf_db s \<and> u \<in> set (users s) \<and> em = email u \<longrightarrow> u = v"
      using v by (auto simp: wf_db_def distinct_map dest: inj_onD)
    show ?thesis using v r uniq True by auto
  qed
qed

theorem verify_identity_iff_witness:
  "wf_db example_db \<and> dates_valid example_db \<and>
   \<lparr>user_id = 0, name = ''Ana'', email = ''ana@x.pt'', password = ''s1secret'', birthDate = 100\<rparr>
     \<in> set (users example_db) \<and>
   valid_date 100 \<and>
   verify_identity example_db ''ana@x.pt'' 100 = ((200, UserIdBody 0), example_db) \<and>
   valid_date 200 \<and>
   verify_identity example_db ''ana@x.pt'' 200 = ((404, Message msg_data_not_found), example_db) \<and>
   \<not> valid_date 8640000000000001 \<and>
   verify_identity example_db ''ana@x.pt'' 8640000000000001 =
     ((500, ServerError msg_server_error (CastError ''birthDate'')), example_db)"
proof -
  let ?u = "\<lparr>user_id = 0, name = ''Ana'', email = ''ana@x.pt'', password = ''s1secret'', birthDate = 100\<rparr>"
  have h1: "wf_db example_db" by (rule wf_example_db)
  have h2: "?u \<in> set (users example_db)" by (simp add: example_db_def)
  have h3: "valid_date 100" "valid_date 200" "\<not> valid_date 8640000000000001"
    by (simp_all add: valid_date_def)
  have a: "verify_identity example_db ''ana@x.pt'' 100 = ((200, UserIdBody 0), example_db)"
    using h1 h2 h3 verify_identity_iff [of 100 example_db "''ana@x.pt''" 0 ?u] by simp
  have b: "verify_identity example_db ''ana@x.pt'' 200 = ((404, Message msg_data_not_found), example_db)"
    using h1 h2 h3 verify_identity_iff [of 200 example_db "''ana@x.pt''" 0 ?u] by simp
  have c: "verify_identity example_db ''ana@x.pt'' 8640000000000001 =
     ((500, ServerError msg_server_error (CastError ''birthDate'')), example_db)"
    using h3 verify_identity_iff [of 8640000000000001 example_db "''ana@x.pt''" 0 ?u] by simp
  from h1 h2 h3 a b c dates_valid_example_db show ?thesis by (simp only: simp_thms)
qed

text \<open>
  The claim as stated fails for a birth date outside the range of \<open>Date\<close>: Ana's address
  with such a birth date matches no record, and the answer is 500 instead of the
  not-found answer.
\<close>

theorem verify_identity_invalid_date_counterexample:
  "\<lparr>user_id = 0, name = ''Ana'', email = ''ana@x.pt'', password = ''s1secret'', birthDate = 100\<rparr>
     \<in> set (users example_db) \<and>
   verify_identity example_db ''ana@x.pt'' 8640000000000001 =
     ((500, ServerError msg_server_error (CastError ''birthDate'')), example_db) \<and>
   fst (verify_identity example_db ''ana@x.pt'' 8640000000000001) \<noteq>
     (404, Message msg_data_not_found)"
  by (simp add: verify_identity_def User_findOne_email_birthDate_def valid_date_def)
     (simp add: example_db_def)

subsection \<open>Registration\<close>

text \<open>
  Claim C7, as amended. For every store in which a user with the given address exists,
  \<open>Register(name, email, password, birthDate)\<close> answers 400 with the address-in-use
  message whatever the other fields are, and the store is unchanged. When no user has the
  address and the record passes the schema's validation (the name, the address and the
  hash are not empty and the birth date is a date), it appends one record with the next
  id, the given name, address and birth date and \<open>bcrypt.hash(password, salt)\<close> as its
  password, and answers 201 with a fixed message; a 201 response is always that fixed
  message, so it carries neither the password nor the hash. When no user has the address
  and the record fails validation, \<open>save\<close> is refused, the answer is 500 with the
  validation error, and no record is created.
\<close>

theorem register_outcomes:
  "((\<exists>u\<in>set (users s). email u = em) \<longrightarrow>
      register B s salt nm em pw bd = ((400, Message msg_email_in_use), s)) \<and>
   ((\<forall>u\<in>set (users s). email u \<noteq> em) \<and> nm \<noteq> [] \<and> em \<noteq> [] \<and> bcrypt_hash B pw salt \<noteq> [] \<and>
    valid_date bd \<longrightarrow>
      register B s salt nm em pw bd =
        ((201, Message msg_user_created),
         s\<lparr>users := users s @
              [\<lparr>user_id = next_oid s, name = nm, email = em,
                password = bcrypt_hash B pw salt, birthDate = bd\<rparr>],
           next_oid := Suc (next_oid s)\<rparr>)) \<and>
   ((\<forall>u\<in>set (users s). email u \<noteq> em) \<and>
    (nm = [] \<or> em = [] \<or> bcrypt_hash B pw salt = [] \<or> \<not> valid_date bd) \<longrightarrow>
      (\<exists>paths. paths \<noteq> {} \<and> register B s salt nm em pw bd =
         ((500, ServerError msg_server_error (ValidationError paths)),
          s\<lparr>next_oid := Suc (next_oid s)\<rparr>))) \<and>
   (fst (fst (register B s salt nm em pw bd)) = 201 \<longrightarrow>
      fst (register B s salt nm em pw bd) = (201, Message msg_user_created))"
proof (intro conjI impI)
  assume "\<exists>u\<in>set (users s). email u = em"
  then obtain v where "User_findOne_email s em = Some v"
    by (cases "User_findOne_email s em") (auto simp: User_findOne_email_def find_None_conv)
  then show "register B s salt nm em pw bd = ((400, Message msg_email_in_use), s)"
    by (simp add: register_def)
next
  assume a: "(\<forall>u\<in>set (users s). email u \<noteq> em) \<and> nm \<noteq> [] \<and> em \<noteq> [] \<and>
    bcrypt_hash B pw salt \<noteq> [] \<and> valid_date bd"
  then have "User_findOne_email s em = None"
    by (simp add: User_findOne_email_def find_None_conv)
  moreover have "find (\<lambda>v. email v = em) (users s) = None"
    using a by (simp add: find_None_conv)
  ultimately show "register B s salt nm em pw bd =
        ((201, Message msg_user_created),
         s\<lparr>users := users s @
              [\<lparr>user_id = next_oid s, name = nm, email = em,
                password = bcrypt_hash B pw salt, birthDate = bd\<rparr>],
           next_oid := Suc (next_oid s)\<rparr>)"
    using a by (simp add: register_def new_User_def User_save_def User_validate_def)
next
  assume a: "(\<forall>u\<in>set (users s). email u \<noteq> em) \<and>
    (nm = [] \<or> em = [] \<or> bcrypt_hash B pw salt = [] \<or> \<not> valid_date bd)"
  let ?doc = "\<lparr>user_id = next_oid s, name = nm, email = em,
                password = bcrypt_hash B pw salt, birthDate = bd\<rparr>"
  have "User_findOne_email s em = None"
    using a by (simp add: User_findOne_email_def find_None_conv)
  moreover have ne: "User_validate ?doc \<noteq> {}"
    using a by (auto simp: User_validate_def)
  ultimately have "register B s salt nm em pw bd =
         ((500, ServerError msg_server_error (ValidationError (User_validate ?doc))),
          s\<lparr>next_oid := Suc (next_oid s)\<rparr>)"
    by (simp add: register_def new_User_def User_save_def)
  with ne show "\<exists>paths. paths \<noteq> {} \<and> register B s salt nm em pw bd =
         ((500, ServerError msg_server_error (ValidationError paths)),
          s\<lparr>next_oid := Suc (next_oid s)\<rparr>)"
    by blast
next
  assume "fst (fst (register B s salt nm em pw bd)) = 201"
  then show "fst (register B s salt nm em pw bd) = (201, Message msg_user_created)"
    by (auto simp: register_def Let_def new_User_def split: option.splits sum.splits)
qed

theorem register_outcomes_witness:
  "''ana@x.pt'' \<in> set (map email (users example_db)) \<and>
   register plain_bcrypt example_db ''s9'' ''Eva'' ''ana@x.pt'' ''lince'' 300 =
     ((400, Message msg_email_in_use), example_db) \<and>
   ''eva@x.pt'' \<notin> set (map email (users example_db)) \<and> valid_date 300 \<and>
   register plain_bcrypt example_db ''s9'' ''Eva'' ''eva@x.pt'' ''lince'' 300 =
     ((201, Message msg_user_created),
      example_db\<lparr>users := users example_db @
           [\<lparr>user_id = 5, name = ''Eva'', email = ''eva@x.pt'', password = ''s9lince'', birthDate = 300\<rparr>],
         next_oid := 6\<rparr>) \<and>
   fst (register plain_bcrypt example_db ''s9'' [] ''eva@x.pt'' ''lince'' 300) =
     (500, ServerError msg_server_error (ValidationError {''name''}))"
proof -
  have h1: "\<exists>u\<in>set (users example_db). email u = ''ana@x.pt''" by (simp add: example_db_def)
  have h2: "(\<forall>u\<in>set (users example_db). email u \<noteq> ''eva@x.pt'') \<and> ''Eva'' \<noteq> [] \<and>
      ''eva@x.pt'' \<noteq> [] \<and> bcrypt_hash plain_bcrypt ''lince'' ''s9'' \<noteq> [] \<and> valid_date 300"
    by (simp add: example_db_def plain_bcrypt_def valid_date_def)
  have h3: "bcrypt_hash plain_bcrypt ''lince'' ''s9'' = ''s9lince''" by (simp add: plain_bcrypt_def)
  have h4: "next_oid example_db = 5" by (simp add: example_db_def)
  have h5: "''ana@x.pt'' \<in> set (map email (users example_db))" by (simp add: example_db_def)
  have h6: "''eva@x.pt'' \<notin> set (map email (users example_db))" by (simp add: example_db_def)
  have h7: "fst (register plain_bcrypt example_db ''s9'' [] ''eva@x.pt'' ''lince'' 300) =
     (500, ServerError msg_server_error (ValidationError {''name''}))"
    by (simp add: example_db_def register_def User_findOne_email_def new_User_def User_save_def
        User_validate_def valid_date_def plain_bcrypt_def)
  have h8: "valid_date 300" by (simp add: valid_date_def)
  have a: "register plain_bcrypt example_db ''s9'' ''Eva'' ''ana@x.pt'' ''lince'' 300 =
     ((400, Message msg_email_in_use), example_db)"
    using register_outcomes [of example_db "''ana@x.pt''" plain_bcrypt "''s9''" "''Eva''" "''lince''" 300,
        THEN conjunct1, THEN mp, OF h1] .
  have b: "register plain_bcrypt example_db ''s9'' ''Eva'' ''eva@x.pt'' ''lince'' 300 =
     ((201, Message msg_user_created),
      example_db\<lparr>users := users example_db @
           [\<lparr>user_id = 5, name = ''Eva'', email = ''eva@x.pt'', password = ''s9lince'', birthDate = 300\<rparr>],
         next_oid := 6\<rparr>)"
    using register_outcomes [of example_db "''eva@x.pt''" plain_bcrypt "''s9''" "''Eva''" "''lince''" 300,
        THEN conjunct2, THEN conjunct1, THEN mp, OF h2]
    by (simp add: h3 h4)
  from a b h5 h6 h7 h8 show ?thesis by (simp only: simp_thms)
qed

text \<open>
  The claim as stated fails for an empty name, for an empty address and for a birth date
  outside the range of \<open>Date\<close>: each time no user has the address, the answer is 500 and
  no record is created.
\<close>

theorem register_invalid_record_counterexample:
  "users init_db = [] \<and>
   register plain_bcrypt init_db ''s1'' [] ''ana@x.pt'' ''secret'' 100 =
     ((500, ServerError msg_server_error (ValidationError {''name''})),
      \<lparr>users = [], events = [], next_oid = 1\<rparr>) \<and>
   register plain_bcrypt init_db ''s1'' ''Ana'' [] ''secret'' 100 =
     ((500, ServerError msg_server_error (ValidationError {''email''})),
      \<lparr>users = [], events = [], next_oid = 1\<rparr>) \<and>
   register plain_bcrypt init_db ''s1'' ''Ana'' ''ana@x.pt'' ''secret'' 8640000000000001 =
     ((500, ServerError msg_server_error (ValidationError {''birthDate''})),
      \<lparr>users = [], events = [], next_oid = 1\<rparr>)"
  by (simp add: init_db_def register_def User_findOne_email_def new_User_def User_save_def
      User_validate_def valid_date_def plain_bcrypt_def)

section \<open>The event ledger\<close>

text \<open>
  Claim C9. For every store and every owner id, \<open>ListEvents(ownerId)\<close> answers 200 with a
  sequence that holds exactly the events of that owner, each as often as the collection
  holds it, in ascending order of \<open>dateTime\<close>, and leaves the store unchanged. An owner
  whose two events were stored with the later one first receives the earlier one first.
\<close>

theorem list_events_sorted:
  "\<exists>es. list_events s i = ((200, EventsBody es), s) \<and>
        mset es = filter_mset (\<lambda>e. userId e = i) (mset (events s)) \<and>
        set es = {e \<in> set (events s). userId e = i} \<and>
        sorted (map dateTime es) \<and>
        (filter (\<lambda>e. userId e = i) (events s) = [e2, e1] \<and> dateTime e1 < dateTime e2 \<longrightarrow>
           es = [e1, e2])"
proof -
  let ?es = "Event_find_sorted s i"
  have "list_events s i = ((200, EventsBody ?es), s)"
    by (simp add: list_events_def)
  moreover have "mset ?es = filter_mset (\<lambda>e. userId e = i) (mset (events s))"
    by (simp add: Event_find_sorted_def)
  moreover have "set ?es = {e \<in> set (events s). userId e = i}"
    by (simp add: Event_find_sorted_def)
  moreover have "sorted (map dateTime ?es)"
    by (simp add: Event_find_sorted_def)
  moreover have "filter (\<lambda>e. userId e = i) (events s) = [e2, e1] \<and> dateTime e1 < dateTime e2 \<longrightarrow>
           ?es = [e1, e2]"
    by (simp add: Event_find_sorted_def)
  ultimately show ?thesis by blast
qed

theorem list_events_sorted_witness:
  "filter (\<lambda>e. userId e = 0) (events example_db) =
     [\<lparr>event_id = 2, userId = 0, eventName = ''Jantar'', venue = ''Lisboa'', dateTime = 50\<rparr>,
      \<lparr>event_id = 4, userId = 0, eventName = ''Feira'', venue = ''Porto'', dateTime = 20\<rparr>] \<and>
   list_events example_db 0 =
     ((200, EventsBody
        [\<lparr>event_id = 4, userId = 0, eventName = ''Feira'', venue = ''Porto'', dateTime = 20\<rparr>,
         \<lparr>event_id = 2, userId = 0, eventName = ''Jantar'', venue = ''Lisboa'', dateTime = 50\<rparr>]),
      example_db)"
proof -
  let ?e1 = "\<lparr>event_id = 4, userId = 0, eventName = ''Feira'', venue = ''Porto'', dateTime = 20\<rparr>"
  let ?e2 = "\<lparr>event_id = 2, userId = 0, eventName = ''Jantar'', venue = ''Lisboa'', dateTime = 50\<rparr>"
  have h: "filter (\<lambda>e. userId e = 0) (events example_db) = [?e2, ?e1] \<and> dateTime ?e1 < dateTime ?e2"
    by (simp add: example_db_def)
  from list_events_sorted [of example_db 0 ?e2 ?e1] h
  show ?thesis by auto
qed

text \<open>
  Claim C8, as amended. In every store reached from the empty one by the eight operations,
  as long as no \<open>CreateEvent\<close> names an owner id that no user has at that moment, every
  event's \<open>userId\<close> is the id of exactly one user record. (\<open>CreateEvent\<close> itself does not
  look the owner up.)
\<close>

theorem owners_exist_when_created_for_users:
  assumes "reachable_owned B s"
  shows "owners_exist s"
  using reachable_owned_inv [OF assms] by (simp add: owners_exist_iff)

theorem owners_exist_when_created_for_users_witness:
  "reachable_owned plain_bcrypt example_db \<and> owners_exist example_db"
  using reachable_owned_example owners_exist_when_created_for_users [OF reachable_owned_example]
  by simp

text \<open>
  The claim as stated fails: on the empty store, \<open>CreateEvent\<close> for the owner id 7 stores an
  event whose owner is no user.
\<close>

theorem create_event_unknown_owner_counterexample:
  "reachable plain_bcrypt (snd (handle plain_bcrypt init_db (CreateEvent 7 ''Jantar'' ''Lisboa'' 50))) \<and>
   snd (handle plain_bcrypt init_db (CreateEvent 7 ''Jantar'' ''Lisboa'' 50)) =
     \<lparr>users = [],
      events = [\<lparr>event_id = 0, userId = 7, eventName = ''Jantar'', venue = ''Lisboa'', dateTime = 50\<rparr>],
      next_oid = 1\<rparr> \<and>
   \<not> owners_exist (snd (handle plain_bcrypt init_db (CreateEvent 7 ''Jantar'' ''Lisboa'' 50)))"
proof -
  have "reachable plain_bcrypt (snd (handle plain_bcrypt init_db (CreateEvent 7 ''Jantar'' ''Lisboa'' 50)))"
    by (rule reachable_step [OF reachable_init])
  moreover have "snd (handle plain_bcrypt init_db (CreateEvent 7 ''Jantar'' ''Lisboa'' 50)) =
     \<lparr>users = [],
      events = [\<lparr>event_id = 0, userId = 7, eventName = ''Jantar'', venue = ''Lisboa'', dateTime = 50\<rparr>],
      next_oid = 1\<rparr>"
    by (simp add: init_db_def create_event_def new_Event_def Event_save_def Event_validate_def valid_date_def)
  ultimately show ?thesis by (simp add: owners_exist_def owner_count_def)
qed

end
